theory Spec2Isabelle
  imports Complex_Main "HOL-Library.Char_ord" "HOL-Library.List_Lexorder"
begin

section \<open>The subject data vault of ClearGDPR: SubjectsService\<close>

text \<open>
  The service embedded here is the class \<open>SubjectsService\<close> that follows the
  document separator in \<^verbatim>\<open>src/admin/src/containers/Rectifications/RectificationsContext.test.js\<close>
  (lines 171 to 375). Each method is an asynchronous function over a knex query builder;
  the embedding passes the three tables as an explicit value, returns the new tables where
  a method writes, and returns every thrown exception as the left summand of a sum.

  Conventions of the embedding:
  \<^item> a table is the list of its rows in storage order; a query without \<open>orderBy\<close>
    yields its rows in that order, a join is the nested loop over its tables in the order
    the query names them, and \<open>const [x] = await query\<close> reads the first row or
    \<open>undefined\<close>;
  \<^item> the tables carry no constraint of their own: the migrations are not in the source,
    and the service itself checks for duplicated subjects;
  \<^item> calls of the store, the commit of a transaction among them, never throw; the
    functions that the source imports (\<open>encryptForStorage\<close>,
    \<open>decryptFromStorage\<close>, \<open>generateClientKey\<close>, \<open>recordErasureByProcessor\<close>)
    and the built-in \<open>JSON.stringify\<close> and \<open>JSON.parse\<close> are parameters, and
    each may throw except \<open>JSON.stringify\<close>; the meaning that ECMAScript gives to
    the two \<open>JSON\<close> functions is the environment \<open>js_env\<close> below;
  \<^item> a leading underscore of a private method is dropped (\<open>_createNewSubject\<close> is
    \<open>createNewSubject\<close>).
\<close>

subsection \<open>Errors\<close>

text \<open>
  \<open>NotFound\<close>, \<open>ValidationError\<close> and \<open>Forbidden\<close> are the classes of
  \<open>utils/errors\<close>, each with its message; \<open>Thrown\<close> is any other exception, raised
  by a collaborator.
\<close>

datatype error =
    NotFound string
  | ValidationError string
  | Forbidden string
  | Thrown string

subsection \<open>Tables\<close>

type_synonym subject_id = string
type_synonym processor_id = nat
type_synonym timestamp = nat

text \<open>A row of \<open>subjects\<close>; the column \<open>id\<close> is the field \<open>s_id\<close>.\<close>

record 'c subject =
  s_id :: subject_id
  personal_data :: "'c option"
  direct_marketing :: bool
  email_communication :: bool
  research :: bool
  objection :: "bool option"
  created_at :: timestamp
  updated_at :: timestamp

text \<open>A row of \<open>subject_keys\<close>; the column \<open>subject_id\<close> is the field \<open>k_subject_id\<close>.\<close>

record subject_key =
  k_subject_id :: subject_id
  key :: "string option"

text \<open>A row of \<open>subject_processors\<close>; the column \<open>subject_id\<close> is \<open>p_subject_id\<close>.\<close>

record subject_processor =
  p_subject_id :: subject_id
  processor_id :: processor_id

record 'c database =
  subjects :: "'c subject list"
  subject_keys :: "subject_key list"
  subject_processors :: "subject_processor list"

subsection \<open>Collaborators\<close>

text \<open>
  The functions the service calls: the cipher and the ledger client it imports, and the
  two functions of the built-in \<open>JSON\<close> object. The service hands their values on
  without looking into them, so the embedding leaves three types open: the payload
  \<open>'p\<close> that \<open>JSON.stringify\<close> is given, the text \<open>'t\<close> that it returns and
  the cipher encrypts, and the ciphertext \<open>'c\<close> that the column \<open>personal_data\<close>
  holds. \<open>generateClientKey\<close> is random: the key it yields in a call of the service is
  an argument (\<open>newKey\<close>) of the embedded method, and so is the store's
  \<open>CURRENT_TIMESTAMP\<close> (\<open>now\<close>).
\<close>

record ('p, 't, 'c) env =
  encryptForStorage :: "'t \<Rightarrow> string option \<Rightarrow> error + 'c"
  decryptFromStorage :: "'c option \<Rightarrow> string option \<Rightarrow> error + 't"
  JSON_stringify :: "'p \<Rightarrow> 't"
  JSON_parse :: "'t \<Rightarrow> error + 'p"
  recordErasureByProcessor :: "subject_id \<Rightarrow> error + unit"

subsection \<open>Observable effects and transactions\<close>

text \<open>
  What a call does besides reading and writing the tables, in the order it does it.
\<close>

datatype event =
    Begin
  | Commit
  | Rollback
  | GenerateKey
  | LogInfo string
  | RecordErasure subject_id

text \<open>
  Modelled from the spec: the transaction engine of the relational store, consumed as a
  capability (\<open>db.transaction(async trx => ...)\<close> of knex). The callback runs on the
  tables of the transaction; when it resolves the transaction commits its writes, when it
  rejects the transaction rolls back, the tables are as before, and the rejection reaches
  the caller.
\<close>

definition transaction ::
  "('c database \<Rightarrow> (error + 'c database) \<times> event list) \<Rightarrow> 'c database
     \<Rightarrow> (error + unit) \<times> 'c database \<times> event list" where
  "transaction body d =
     (case body d of
        (Inr d', evs) \<Rightarrow> (Inr (), d', Begin # evs @ [Commit])
      | (Inl e, evs) \<Rightarrow> (Inl e, d, Begin # evs @ [Rollback]))"

subsection \<open>Reading a subject\<close>

definition getSubjectData :: "('p, 't, 'c) env \<Rightarrow> 'c database \<Rightarrow> subject_id \<Rightarrow> error + 'p" where
  "getSubjectData env d subjectId =
     (case [(personal_data s, key k).
              s \<leftarrow> subjects d, k \<leftarrow> subject_keys d,
              s_id s = k_subject_id k, k_subject_id k = subjectId] of
        [] \<Rightarrow> Inl (NotFound ''Subject not found'')
      | data # _ \<Rightarrow>
          (case decryptFromStorage env (fst data) (snd data) of
             Inl e \<Rightarrow> Inl e
           | Inr decryptedData \<Rightarrow> JSON_parse env decryptedData))"

subsection \<open>Creating and updating a subject\<close>

definition saveSubjectEncryptionKey :: "'c database \<Rightarrow> subject_id \<Rightarrow> string \<Rightarrow> 'c database" where
  "saveSubjectEncryptionKey trx subjectId encryptionKey =
     trx\<lparr>subject_keys := subject_keys trx @
            [\<lparr>k_subject_id = subjectId, key = Some encryptionKey\<rparr>]\<rparr>"

text \<open>
  Modelled from the spec: the defaults of the columns the insert leaves out, declared in
  migrations that are not in the source: \<open>objection\<close> is null until an objection is
  made, \<open>created_at\<close> and \<open>updated_at\<close> are the time of the insert.
\<close>

definition createNewSubject ::
  "('p, 't, 'c) env \<Rightarrow> string \<Rightarrow> timestamp \<Rightarrow> 'p \<Rightarrow> 'c database \<Rightarrow> subject_id
     \<Rightarrow> (error + 'c database) \<times> event list" where
  "createNewSubject env newKey now personalData trx subjectId =
     (let encryptionKey = newKey in
      case encryptForStorage env (JSON_stringify env personalData) (Some encryptionKey) of
        Inl e \<Rightarrow> (Inl e, [GenerateKey])
      | Inr encryptedPersonalData \<Rightarrow>
          (Inr (saveSubjectEncryptionKey
                  (trx\<lparr>subjects := subjects trx @
                         [\<lparr>s_id = subjectId,
                           personal_data = Some encryptedPersonalData,
                           direct_marketing = True,
                           email_communication = True,
                           research = True,
                           objection = None,
                           created_at = now,
                           updated_at = now\<rparr>]\<rparr>)
                  subjectId encryptionKey),
           [GenerateKey]))"

definition updateExistingSubject ::
  "('p, 't, 'c) env \<Rightarrow> string \<Rightarrow> timestamp \<Rightarrow> 'c database \<Rightarrow> subject_id \<Rightarrow> 'p
     \<Rightarrow> (error + 'c database) \<times> event list" where
  "updateExistingSubject env newKey now trx subjectId personalData =
     (let (encryptionKey, trx', evs) =
            (case filter (\<lambda>k. k_subject_id k = subjectId) (subject_keys trx) of
               subjectKey # _ \<Rightarrow> (key subjectKey, trx, [])
             | [] \<Rightarrow> (Some newKey, saveSubjectEncryptionKey trx subjectId newKey,
                       [GenerateKey]))
      in case encryptForStorage env (JSON_stringify env personalData) encryptionKey of
           Inl e \<Rightarrow> (Inl e, evs)
         | Inr encryptedPersonalData \<Rightarrow>
             (Inr (trx'\<lparr>subjects :=
                      map (\<lambda>s. if s_id s = subjectId
                                then s\<lparr>personal_data := Some encryptedPersonalData,
                                       updated_at := now\<rparr>
                                else s)
                          (subjects trx')\<rparr>),
              evs))"

definition initializeUserInTransaction ::
  "('p, 't, 'c) env \<Rightarrow> string \<Rightarrow> timestamp \<Rightarrow> 'c database \<Rightarrow> subject_id \<Rightarrow> 'p
     \<Rightarrow> (error + 'c database) \<times> event list" where
  "initializeUserInTransaction env newKey now trx subjectId personalData =
     (case filter (\<lambda>s. s_id s = subjectId) (subjects trx) of
        [] \<Rightarrow> createNewSubject env newKey now personalData trx subjectId
      | subject # _ \<Rightarrow> updateExistingSubject env newKey now trx subjectId personalData)"

definition initializeUser ::
  "('p, 't, 'c) env \<Rightarrow> string \<Rightarrow> timestamp \<Rightarrow> 'c database \<Rightarrow> subject_id \<Rightarrow> 'p
     \<Rightarrow> (error + unit) \<times> 'c database \<times> event list" where
  "initializeUser env newKey now d subjectId personalData =
     transaction (\<lambda>trx. initializeUserInTransaction env newKey now trx subjectId personalData) d"

subsection \<open>Listing the subjects of a processor\<close>

definition PAGE_SIZE :: nat where
  "PAGE_SIZE = 10"

text \<open>
  \<open>Math.ceil(a / b)\<close> on a row count and the page size, as the exact quotient: the
  counts of a table are far below the range where a double rounds it.
\<close>

definition Math_ceil_div :: "nat \<Rightarrow> nat \<Rightarrow> nat" where
  "Math_ceil_div a b = nat \<lceil>real a / real b\<rceil>"

text \<open>The decimal digits of a number, as a template literal prints it.\<close>

fun show_nat :: "nat \<Rightarrow> string" where
  "show_nat n =
     (if n < 10 then [char_of (48 + n)]
      else show_nat (n div 10) @ [char_of (48 + n mod 10)])"

text \<open>
  The rows both queries of \<open>listSubjects\<close> select from: the join of the three
  tables on the subject id, for one processor, with ciphertext and key not null.
\<close>

definition listedSubjects :: "'c database \<Rightarrow> processor_id \<Rightarrow> 'c subject list" where
  "listedSubjects d processorId =
     [s. s \<leftarrow> subjects d,
         k \<leftarrow> subject_keys d, s_id s = k_subject_id k,
         p \<leftarrow> subject_processors d, s_id s = p_subject_id p,
         processor_id p = processorId,
         personal_data s \<noteq> None,
         key k \<noteq> None]"

record paging =
  current :: int
  total :: nat

record subjects_page =
  data :: "(subject_id \<times> timestamp) list"
  paging :: paging

text \<open>
  The page number is an integer; \<open>None\<close> is a call that leaves the argument out.
  \<open>orderBy('id', 'asc')\<close> is the stable sort on the lexicographic order of the ids.
\<close>

definition listSubjects :: "'c database \<Rightarrow> processor_id \<Rightarrow> int option \<Rightarrow> error + subjects_page" where
  "listSubjects d processorId requestedPageArg =
     (let requestedPage = (case requestedPageArg of None \<Rightarrow> 1 | Some p \<Rightarrow> p);
          numberOfSubjects = length (listedSubjects d processorId);
          totalPages0 = Math_ceil_div numberOfSubjects PAGE_SIZE;
          totalPages = (if totalPages0 = 0 then 1 else totalPages0)
      in if requestedPage > int totalPages then
           Inl (ValidationError
                  (''page number too big, maximum page number is '' @ show_nat totalPages))
         else if requestedPage < 1 then
           Inl (ValidationError ''Minimum page number is 1'')
         else
           Inr \<lparr>data =
                  map (\<lambda>s. (s_id s, created_at s))
                    (take PAGE_SIZE
                       (drop (nat ((requestedPage - 1) * int PAGE_SIZE))
                          (sort_key s_id (listedSubjects d processorId)))),
                paging = \<lparr>current = requestedPage, total = totalPages\<rparr>\<rparr>)"

subsection \<open>Erasure\<close>

definition eraseDataAndRevokeConsent ::
  "('p, 't, 'c) env \<Rightarrow> 'c database \<Rightarrow> subject_id \<Rightarrow> (error + unit) \<times> 'c database \<times> event list" where
  "eraseDataAndRevokeConsent env d subjectId =
     transaction
       (\<lambda>trx.
          let trx1 = trx\<lparr>subject_keys :=
                           filter (\<lambda>k. k_subject_id k \<noteq> subjectId) (subject_keys trx)\<rparr>;
              trx2 = trx1\<lparr>subject_processors :=
                            filter (\<lambda>p. p_subject_id p \<noteq> subjectId)
                              (subject_processors trx1)\<rparr>;
              evs = [LogInfo ''Emitting erasure event to blockchain'',
                     RecordErasure subjectId]
          in case recordErasureByProcessor env subjectId of
               Inl e \<Rightarrow> (Inl e, evs)
             | Inr _ \<Rightarrow> (Inr trx2, evs))
       d"

subsection \<open>Restrictions and objection\<close>

text \<open>
  \<open>update\<close> resolves to the number of rows the \<open>where\<close> clause matches. Neither
  mutator runs in a transaction: the rows are written before the count is checked.
\<close>

definition restrict ::
  "'c database \<Rightarrow> subject_id \<Rightarrow> bool \<Rightarrow> bool \<Rightarrow> bool \<Rightarrow> (error + unit) \<times> 'c database" where
  "restrict d subjectId directMarketing emailCommunication research' =
     (let subjectRestrictionsUpdates = length (filter (\<lambda>s. s_id s = subjectId) (subjects d));
          d' = d\<lparr>subjects :=
                   map (\<lambda>s. if s_id s = subjectId
                             then s\<lparr>direct_marketing := directMarketing,
                                    email_communication := emailCommunication,
                                    research := research'\<rparr>
                             else s)
                       (subjects d)\<rparr>
      in if subjectRestrictionsUpdates = 0 then (Inl (NotFound ''Subject not found''), d')
         else if subjectRestrictionsUpdates > 1 then
           (Inl (Forbidden ''Duplicated subject in the database''), d')
         else (Inr (), d'))"

definition getSubjectRestrictions :: "'c database \<Rightarrow> subject_id \<Rightarrow> error + bool \<times> bool \<times> bool" where
  "getSubjectRestrictions d subjectId =
     (case filter (\<lambda>s. s_id s = subjectId) (subjects d) of
        [] \<Rightarrow> Inl (NotFound ''Subject not found'')
      | subjectRestrictions # _ \<Rightarrow>
          Inr (direct_marketing subjectRestrictions,
               email_communication subjectRestrictions,
               research subjectRestrictions))"

definition object :: "'c database \<Rightarrow> subject_id \<Rightarrow> bool option \<Rightarrow> (error + unit) \<times> 'c database" where
  "object d subjectId objection' =
     (let subjectObjectionUpdates = length (filter (\<lambda>s. s_id s = subjectId) (subjects d));
          d' = d\<lparr>subjects :=
                   map (\<lambda>s. if s_id s = subjectId then s\<lparr>objection := objection'\<rparr> else s)
                       (subjects d)\<rparr>
      in if subjectObjectionUpdates = 0 then (Inl (NotFound ''Subject not found''), d')
         else if subjectObjectionUpdates > 1 then
           (Inl (Forbidden ''Duplicated subject in the database''), d')
         else (Inr (), d'))"

definition getSubjectObjection :: "'c database \<Rightarrow> subject_id \<Rightarrow> error + bool option" where
  "getSubjectObjection d subjectId =
     (case filter (\<lambda>s. s_id s = subjectId) (subjects d) of
        [] \<Rightarrow> Inl (NotFound ''Subject not found'')
      | subjectObjection # _ \<Rightarrow> Inr (objection subjectObjection))"

subsection \<open>The spec's page count\<close>

text \<open>
  The page count in the words of the spec: \<open>ceil(matchingCount / pageSize)\<close> with page
  size 10, floored at 1.
\<close>

definition spec_totalPages :: "nat \<Rightarrow> nat" where
  "spec_totalPages matchingCount = max 1 (nat \<lceil>real matchingCount / 10\<rceil>)"

subsection \<open>Concrete collaborators and tables\<close>

text \<open>
  A cipher that prefixes the plaintext with the key and refuses a ciphertext that does
  not start with the key it is given, a payload that is its own JSON text, and a ledger
  that records every erasure.
\<close>

definition demo_env :: "(string, string, string) env" where
  "demo_env =
     \<lparr>encryptForStorage =
        (\<lambda>plain k. case k of None \<Rightarrow> Inl (Thrown ''no key'')
                   | Some k' \<Rightarrow> Inr (k' @ plain)),
      decryptFromStorage =
        (\<lambda>c k. case c of None \<Rightarrow> Inl (Thrown ''no ciphertext'')
               | Some c' \<Rightarrow>
                   (case k of None \<Rightarrow> Inl (Thrown ''no key'')
                    | Some k' \<Rightarrow>
                        if take (length k') c' = k' then Inr (drop (length k') c')
                        else Inl (Thrown ''wrong key''))),
      JSON_stringify = (\<lambda>p. p),
      JSON_parse = (\<lambda>txt. Inr txt),
      recordErasureByProcessor = (\<lambda>subjectId. Inr ())\<rparr>"

text \<open>The same collaborators with a ledger that rejects every call.\<close>

definition failing_ledger_env :: "(string, string, string) env" where
  "failing_ledger_env =
     demo_env\<lparr>recordErasureByProcessor := (\<lambda>subjectId. Inl (Thrown ''ledger unavailable''))\<rparr>"

definition empty_db :: "string database" where
  "empty_db = \<lparr>subjects = [], subject_keys = [], subject_processors = []\<rparr>"

text \<open>
  One subject \<open>s1\<close> with the payload \<open>Alice\<close> under the key \<open>k1\<close>, listed for
  processor 7.
\<close>

definition db_alice :: "string database" where
  "db_alice =
     \<lparr>subjects =
        [\<lparr>s_id = ''s1'', personal_data = Some ''k1Alice'',
          direct_marketing = True, email_communication = True, research = True,
          objection = None, created_at = 100, updated_at = 100\<rparr>],
      subject_keys = [\<lparr>k_subject_id = ''s1'', key = Some ''k1''\<rparr>],
      subject_processors = [\<lparr>p_subject_id = ''s1'', processor_id = 7\<rparr>]\<rparr>"

subsection \<open>The built-in JSON\<close>

text \<open>
  The values of JavaScript that a payload is made of: \<open>undefined\<close>, \<open>null\<close>,
  booleans, integral numbers, \<open>NaN\<close>, strings, arrays, and objects as the list of
  their own properties in order, each name once.
\<close>

datatype js_value =
    JS_undefined
  | JS_null
  | JS_boolean bool
  | JS_number int
  | JS_NaN
  | JS_string string
  | JS_array "js_value list"
  | JS_object "(string \<times> js_value) list"

text \<open>
  A JSON text, as the document it denotes; a text that denotes none is what
  \<open>JSON.parse\<close> throws on.
\<close>

datatype json =
    J_null
  | J_boolean bool
  | J_number int
  | J_string string
  | J_array "json list"
  | J_object "(string \<times> json) list"

text \<open>
  \<open>JSON.stringify\<close> (SerializeJSONProperty of ECMAScript): \<open>undefined\<close> has no
  text, \<open>NaN\<close> is written \<open>null\<close>, an array element without a text is written
  \<open>null\<close>, and a property without a text is left out.
\<close>

fun SerializeJSONProperty :: "js_value \<Rightarrow> json option"
  and SerializeJSONArray :: "js_value list \<Rightarrow> json list"
  and SerializeJSONObject :: "(string \<times> js_value) list \<Rightarrow> (string \<times> json) list" where
  "SerializeJSONProperty JS_undefined = None"
| "SerializeJSONProperty JS_null = Some J_null"
| "SerializeJSONProperty (JS_boolean b) = Some (J_boolean b)"
| "SerializeJSONProperty (JS_number n) = Some (J_number n)"
| "SerializeJSONProperty JS_NaN = Some J_null"
| "SerializeJSONProperty (JS_string s) = Some (J_string s)"
| "SerializeJSONProperty (JS_array vs) = Some (J_array (SerializeJSONArray vs))"
| "SerializeJSONProperty (JS_object ps) = Some (J_object (SerializeJSONObject ps))"
| "SerializeJSONArray [] = []"
| "SerializeJSONArray (v # vs) =
     (case SerializeJSONProperty v of None \<Rightarrow> J_null | Some j \<Rightarrow> j) # SerializeJSONArray vs"
| "SerializeJSONObject [] = []"
| "SerializeJSONObject (p # ps) =
     (case SerializeJSONProperty (snd p) of
        None \<Rightarrow> SerializeJSONObject ps
      | Some j \<Rightarrow> (fst p, j) # SerializeJSONObject ps)"

text \<open>\<open>JSON.parse\<close> of a text: the value of the document.\<close>

fun InternalizeJSON :: "json \<Rightarrow> js_value"
  and InternalizeJSONArray :: "json list \<Rightarrow> js_value list"
  and InternalizeJSONObject :: "(string \<times> json) list \<Rightarrow> (string \<times> js_value) list" where
  "InternalizeJSON J_null = JS_null"
| "InternalizeJSON (J_boolean b) = JS_boolean b"
| "InternalizeJSON (J_number n) = JS_number n"
| "InternalizeJSON (J_string s) = JS_string s"
| "InternalizeJSON (J_array js) = JS_array (InternalizeJSONArray js)"
| "InternalizeJSON (J_object ms) = JS_object (InternalizeJSONObject ms)"
| "InternalizeJSONArray [] = []"
| "InternalizeJSONArray (j # js) = InternalizeJSON j # InternalizeJSONArray js"
| "InternalizeJSONObject [] = []"
| "InternalizeJSONObject (m # ms) = (fst m, InternalizeJSON (snd m)) # InternalizeJSONObject ms"

text \<open>
  The values that the JSON round trip keeps: no \<open>undefined\<close> and no \<open>NaN\<close>
  anywhere in them.
\<close>

fun json_safe :: "js_value \<Rightarrow> bool"
  and json_safe_array :: "js_value list \<Rightarrow> bool"
  and json_safe_object :: "(string \<times> js_value) list \<Rightarrow> bool" where
  "json_safe JS_undefined = False"
| "json_safe JS_null = True"
| "json_safe (JS_boolean b) = True"
| "json_safe (JS_number n) = True"
| "json_safe JS_NaN = False"
| "json_safe (JS_string s) = True"
| "json_safe (JS_array vs) = json_safe_array vs"
| "json_safe (JS_object ps) = json_safe_object ps"
| "json_safe_array [] = True"
| "json_safe_array (v # vs) = (json_safe v \<and> json_safe_array vs)"
| "json_safe_object [] = True"
| "json_safe_object (p # ps) = (json_safe (snd p) \<and> json_safe_object ps)"

text \<open>
  The environment of JavaScript values: the built-in \<open>JSON\<close>, whose
  \<open>stringify\<close> returns a text or \<open>undefined\<close> and whose \<open>parse\<close> throws on
  \<open>undefined\<close>; a cipher whose ciphertext is the key with the text, which throws when
  it is handed no text or no key and when the key is not the one of the ciphertext; and a
  ledger that records every erasure.
\<close>

definition js_env :: "(js_value, json option, string \<times> json) env" where
  "js_env =
     \<lparr>encryptForStorage =
        (\<lambda>plain k. case plain of None \<Rightarrow> Inl (Thrown ''TypeError'')
                   | Some txt \<Rightarrow>
                       (case k of None \<Rightarrow> Inl (Thrown ''no key'')
                        | Some k' \<Rightarrow> Inr (k', txt))),
      decryptFromStorage =
        (\<lambda>c k. case c of None \<Rightarrow> Inl (Thrown ''no ciphertext'')
               | Some c' \<Rightarrow>
                   (case k of None \<Rightarrow> Inl (Thrown ''no key'')
                    | Some k' \<Rightarrow>
                        if fst c' = k' then Inr (Some (snd c'))
                        else Inl (Thrown ''wrong key''))),
      JSON_stringify = SerializeJSONProperty,
      JSON_parse =
        (\<lambda>txt. case txt of None \<Rightarrow> Inl (Thrown ''SyntaxError'')
               | Some j \<Rightarrow> Inr (InternalizeJSON j)),
      recordErasureByProcessor = (\<lambda>subjectId. Inr ())\<rparr>"

definition js_empty_db :: "(string \<times> json) database" where
  "js_empty_db = \<lparr>subjects = [], subject_keys = [], subject_processors = []\<rparr>"

text \<open>The payloads \<open>{name: 'Alice', age: NaN}\<close> and \<open>{name: 'Alice', age: 30}\<close>.\<close>

definition alice_NaN :: js_value where
  "alice_NaN = JS_object [(''name'', JS_string ''Alice''), (''age'', JS_NaN)]"

definition alice_30 :: js_value where
  "alice_30 = JS_object [(''name'', JS_string ''Alice''), (''age'', JS_number 30)]"

subsection \<open>Reading an outcome\<close>

text \<open>The three parts of what a transactional method returns.\<close>

abbreviation result_of :: "'r \<times> 'c database \<times> event list \<Rightarrow> 'r" where
  "result_of out \<equiv> fst out"

abbreviation db_of :: "'r \<times> 'c database \<times> event list \<Rightarrow> 'c database" where
  "db_of out \<equiv> fst (snd out)"

abbreviation events_of :: "'r \<times> 'c database \<times> event list \<Rightarrow> event list" where
  "events_of out \<equiv> snd (snd out)"

text \<open>Two calls of \<open>initializeUser\<close> for one subject, the second on the tables of the first.\<close>

definition initializeTwice ::
  "('p, 't, 'c) env \<Rightarrow> string \<Rightarrow> timestamp \<Rightarrow> string \<Rightarrow> timestamp \<Rightarrow> 'c database \<Rightarrow> subject_id \<Rightarrow> 'p \<Rightarrow> 'p
     \<Rightarrow> (error + unit) \<times> 'c database \<times> event list" where
  "initializeTwice env k1 t1 k2 t2 d S P1 P2 =
     initializeUser env k2 t2 (db_of (initializeUser env k1 t1 d S P1)) S P2"

text \<open>The id and the three consent flags of a subject row.\<close>

definition consent_flags :: "'c subject \<Rightarrow> subject_id \<times> bool \<times> bool \<times> bool" where
  "consent_flags s = (s_id s, direct_marketing s, email_communication s, research s)"

text \<open>The row \<open>createNewSubject\<close> inserts and the update \<open>updateExistingSubject\<close> makes.\<close>

definition new_subject :: "subject_id \<Rightarrow> 'c \<Rightarrow> timestamp \<Rightarrow> 'c subject" where
  "new_subject S c now =
     \<lparr>s_id = S, personal_data = Some c, direct_marketing = True,
      email_communication = True, research = True, objection = None,
      created_at = now, updated_at = now\<rparr>"

definition rewrite_subject :: "subject_id \<Rightarrow> 'c \<Rightarrow> timestamp \<Rightarrow> 'c subject \<Rightarrow> 'c subject" where
  "rewrite_subject S c now s =
     (if s_id s = S then s\<lparr>personal_data := Some c, updated_at := now\<rparr> else s)"

subsection \<open>Assumptions on the collaborators and on the key table\<close>

text \<open>
  The cipher round-trips a text: under every key that is present it encrypts the text
  without throwing, and decrypts the result under that key to the text.
\<close>

definition cipher_roundtrip :: "('p, 't, 'c) env \<Rightarrow> 't \<Rightarrow> bool" where
  "cipher_roundtrip env plain \<longleftrightarrow>
     (\<forall>k. \<exists>c. encryptForStorage env plain (Some k) = Inr c \<and>
              decryptFromStorage env (Some c) (Some k) = Inr plain)"

text \<open>
  The state of the key table that the service keeps: every key row belongs to a subject
  row, no subject has two key rows, and no key is null. It holds of the empty store and
  every method of the service preserves it.
\<close>

definition key_store_ok :: "'c database \<Rightarrow> bool" where
  "key_store_ok d \<longleftrightarrow>
     k_subject_id ` set (subject_keys d) \<subseteq> s_id ` set (subjects d) \<and>
     distinct (map k_subject_id (subject_keys d)) \<and>
     (\<forall>k \<in> set (subject_keys d). key k \<noteq> None)"

text \<open>
  What a successful \<open>initializeUser\<close> leaves for its subject: one key row, at least one
  subject row, and a read that returns what \<open>JSON.parse\<close> makes of the text that
  \<open>JSON.stringify\<close> made of the payload.
\<close>

definition initialized :: "('p, 't, 'c) env \<Rightarrow> 'c database \<Rightarrow> subject_id \<Rightarrow> 'p \<Rightarrow> bool" where
  "initialized env d S P \<longleftrightarrow>
     key_store_ok d \<and>
     length (filter (\<lambda>k. k_subject_id k = S) (subject_keys d)) = 1 \<and>
     filter (\<lambda>s. s_id s = S) (subjects d) \<noteq> [] \<and>
     getSubjectData env d S = JSON_parse env (JSON_stringify env P)"

section \<open>Properties\<close>

subsection \<open>The join of subjects and keys\<close>

lemma join_inner:
  "[g k. k \<leftarrow> ks, s_id s = k_subject_id k, k_subject_id k = S] =
   (if s_id s = S then map g (filter (\<lambda>k. k_subject_id k = S) ks) else [])"
  by (induction ks) auto

lemma join_filter:
  "[g s k. s \<leftarrow> ss, k \<leftarrow> ks, s_id s = k_subject_id k, k_subject_id k = S] =
   [g s k. s \<leftarrow> filter (\<lambda>s. s_id s = S) ss, k \<leftarrow> filter (\<lambda>k. k_subject_id k = S) ks]"
  by (induction ss) (simp_all add: join_inner)

lemma concat_map_Nil: "concat (map (\<lambda>s. []) xs) = []"
  by (induction xs) auto

text \<open>
  The first row of the join is the first subject row of the id with the first key row of
  the id; the join is empty when either is missing.
\<close>

lemma getSubjectData_filter:
  "getSubjectData env d S =
     (case filter (\<lambda>s. s_id s = S) (subjects d) of
        [] \<Rightarrow> Inl (NotFound ''Subject not found'')
      | s # ss \<Rightarrow>
         (case filter (\<lambda>k. k_subject_id k = S) (subject_keys d) of
            [] \<Rightarrow> Inl (NotFound ''Subject not found'')
          | k # ks \<Rightarrow>
             (case decryptFromStorage env (personal_data s) (key k) of
                Inl e \<Rightarrow> Inl e
              | Inr decryptedData \<Rightarrow> JSON_parse env decryptedData)))"
  unfolding getSubjectData_def
  apply (simp only: join_filter[where g="\<lambda>s k. (personal_data s, key k)"])
  apply (cases "filter (\<lambda>s. s_id s = S) (subjects d)";
         cases "filter (\<lambda>k. k_subject_id k = S) (subject_keys d)")
  apply (simp_all add: concat_map_Nil)
  done

lemma filter_s_id_empty: "S \<notin> s_id ` set ss \<Longrightarrow> filter (\<lambda>s. s_id s = S) ss = []"
  by (induction ss) auto

subsection \<open>Reads of an unknown subject\<close>

text \<open>
  Claim C7. A subject id that was never initialized has no row in \<open>subjects\<close>; for such
  an id \<open>getSubjectData\<close>, \<open>getSubjectRestrictions\<close> and \<open>getSubjectObjection\<close>
  each fail with \<open>NotFound\<close>.
\<close>

theorem unknown_subject_NotFound:
  "subjectId \<notin> s_id ` set (subjects d) \<Longrightarrow>
     getSubjectData env d subjectId = Inl (NotFound ''Subject not found'') \<and>
     getSubjectRestrictions d subjectId = Inl (NotFound ''Subject not found'') \<and>
     getSubjectObjection d subjectId = Inl (NotFound ''Subject not found'')"
  by (simp add: getSubjectData_filter getSubjectRestrictions_def getSubjectObjection_def
        filter_s_id_empty)

theorem unknown_subject_NotFound_witness:
  "''s2'' \<notin> s_id ` set (subjects db_alice) \<and>
   getSubjectData demo_env db_alice ''s2'' = Inl (NotFound ''Subject not found'') \<and>
   getSubjectRestrictions db_alice ''s2'' = Inl (NotFound ''Subject not found'') \<and>
   getSubjectObjection db_alice ''s2'' = Inl (NotFound ''Subject not found'')"
proof -
  have h: "''s2'' \<notin> s_id ` set (subjects db_alice)"
    by (simp add: db_alice_def)
  show ?thesis
    using h unknown_subject_NotFound [OF h, of demo_env] by simp
qed

subsection \<open>Paging of the listing\<close>

lemma Math_ceil_div_PAGE_SIZE: "Math_ceil_div n PAGE_SIZE = (n + 9) div 10"
  unfolding Math_ceil_div_def PAGE_SIZE_def by linarith

lemma spec_totalPages_eq: "spec_totalPages n = max 1 ((n + 9) div 10)"
proof -
  have "nat \<lceil>real n / 10\<rceil> = (n + 9) div 10" by linarith
  then show ?thesis by (simp add: spec_totalPages_def)
qed

lemma totalPages_spec:
  "(if Math_ceil_div n PAGE_SIZE = 0 then 1 else Math_ceil_div n PAGE_SIZE) = spec_totalPages n"
  by (simp add: Math_ceil_div_PAGE_SIZE spec_totalPages_eq max_def)

lemma spec_totalPages_pos: "1 \<le> spec_totalPages n"
  by (simp add: spec_totalPages_def)

lemma listSubjects_unfold:
  "listSubjects d P (Some page) =
     (if page > int (spec_totalPages (length (listedSubjects d P))) then
        Inl (ValidationError (''page number too big, maximum page number is '' @
               show_nat (spec_totalPages (length (listedSubjects d P)))))
      else if page < 1 then Inl (ValidationError ''Minimum page number is 1'')
      else Inr \<lparr>data = map (\<lambda>s. (s_id s, created_at s))
                    (take PAGE_SIZE
                       (drop (nat ((page - 1) * int PAGE_SIZE))
                          (sort_key s_id (listedSubjects d P)))),
                paging = \<lparr>current = page, total = spec_totalPages (length (listedSubjects d P))\<rparr>\<rparr>)"
  unfolding listSubjects_def Let_def totalPages_spec by simp

text \<open>
  Claim C6. For every processor id and requested page, \<open>listSubjects\<close> fails with
  \<open>ValidationError\<close> exactly when the page exceeds the total page count or is less
  than 1, and with no other error; a page it returns reports the requested page as current
  and \<open>ceil(matchingCount / 10)\<close> floored at 1 as total; with zero matching subjects
  page 1 is \<open>{data: [], paging: {current: 1, total: 1}}\<close> and page 2 is a
  \<open>ValidationError\<close>.
\<close>

theorem listSubjects_paging:
  "((\<exists>m. listSubjects d P (Some page) = Inl (ValidationError m)) \<longleftrightarrow>
      (page > int (spec_totalPages (length (listedSubjects d P))) \<or> page < 1)) \<and>
   (\<forall>e. listSubjects d P (Some page) = Inl e \<longrightarrow> (\<exists>m. e = ValidationError m)) \<and>
   (\<forall>r. listSubjects d P (Some page) = Inr r \<longrightarrow>
      current (paging r) = page \<and>
      total (paging r) = spec_totalPages (length (listedSubjects d P))) \<and>
   (listedSubjects d P = [] \<longrightarrow>
      listSubjects d P (Some 1) = Inr \<lparr>data = [], paging = \<lparr>current = 1, total = 1\<rparr>\<rparr> \<and>
      (\<exists>m. listSubjects d P (Some 2) = Inl (ValidationError m)))"
  by (auto simp: listSubjects_unfold spec_totalPages_eq)

theorem listSubjects_paging_witness:
  "listedSubjects empty_db 7 = [] \<and>
   listSubjects empty_db 7 (Some 1) = Inr \<lparr>data = [], paging = \<lparr>current = 1, total = 1\<rparr>\<rparr> \<and>
   (\<exists>m. listSubjects empty_db 7 (Some 2) = Inl (ValidationError m)) \<and>
   listSubjects db_alice 7 (Some 1) = Inr \<lparr>data = [(''s1'', 100)], paging = \<lparr>current = 1, total = 1\<rparr>\<rparr>"
proof -
  have h: "listedSubjects empty_db 7 = []"
    by (simp add: listedSubjects_def empty_db_def)
  have a: "listSubjects db_alice 7 (Some 1) = Inr \<lparr>data = [(''s1'', 100)], paging = \<lparr>current = 1, total = 1\<rparr>\<rparr>"
   by (simp add: listSubjects_unfold listedSubjects_def db_alice_def spec_totalPages_eq PAGE_SIZE_def)
  show ?thesis
    using h a listSubjects_paging [of empty_db 7 1] by simp
qed

text \<open>
  Claim C10. For every processor id, \<open>listSubjects\<close> without a page argument is
  \<open>listSubjects\<close> with page 1: it returns a page, whose \<open>paging.current\<close>
  is 1.
\<close>

theorem listSubjects_default_page:
  "listSubjects d P None = listSubjects d P (Some 1) \<and>
   (\<exists>r. listSubjects d P None = Inr r \<and> current (paging r) = 1)"
proof -
  have "listSubjects d P None = listSubjects d P (Some 1)"
    by (simp add: listSubjects_def)
  moreover have "\<exists>r. listSubjects d P (Some 1) = Inr r \<and> current (paging r) = 1"
    using spec_totalPages_pos [of "length (listedSubjects d P)"]
    by (simp add: listSubjects_unfold)
  ultimately show ?thesis by simp
qed

subsection \<open>Restrictions and objection\<close>

lemma filter_map_upd_id:
  "(\<And>s. s_id (f s) = s_id s) \<Longrightarrow>
     filter (\<lambda>s. s_id s = S) (map (\<lambda>s. if s_id s = S then f s else s) ss) =
     map f (filter (\<lambda>s. s_id s = S) ss)"
  by (induction ss) auto

text \<open>
  Claim C8. For every subject id, \<open>restrict\<close> and \<open>object\<close> fail with
  \<open>NotFound\<close> when the update scoped to the id affects no row and with
  \<open>Forbidden\<close> when it affects more than one; when they succeed,
  \<open>getSubjectRestrictions\<close> and \<open>getSubjectObjection\<close> return exactly the
  values written.
\<close>

theorem restrict_object_outcomes:
  "(length (filter (\<lambda>s. s_id s = S) (subjects d)) = 0 \<longrightarrow>
      fst (restrict d S dm ec rs) = Inl (NotFound ''Subject not found'') \<and>
      fst (object d S ob) = Inl (NotFound ''Subject not found'')) \<and>
   (length (filter (\<lambda>s. s_id s = S) (subjects d)) > 1 \<longrightarrow>
      fst (restrict d S dm ec rs) = Inl (Forbidden ''Duplicated subject in the database'') \<and>
      fst (object d S ob) = Inl (Forbidden ''Duplicated subject in the database'')) \<and>
   (fst (restrict d S dm ec rs) = Inr () \<longrightarrow>
      getSubjectRestrictions (snd (restrict d S dm ec rs)) S = Inr (dm, ec, rs)) \<and>
   (fst (object d S ob) = Inr () \<longrightarrow>
      getSubjectObjection (snd (object d S ob)) S = Inr ob)"
proof -
  let ?n = "length (filter (\<lambda>s. s_id s = S) (subjects d))"
  have r: "getSubjectRestrictions (snd (restrict d S dm ec rs)) S = Inr (dm, ec, rs)"
    if "fst (restrict d S dm ec rs) = Inr ()"
  proof -
    from that have "?n \<noteq> 0"
      by (auto simp: restrict_def Let_def split: if_splits)
    then obtain x xs where "filter (\<lambda>s. s_id s = S) (subjects d) = x # xs"
      by (cases "filter (\<lambda>s. s_id s = S) (subjects d)") auto
    then show ?thesis
      by (simp add: restrict_def Let_def getSubjectRestrictions_def filter_map_upd_id)
  qed
  have ob: "getSubjectObjection (snd (object d S ob)) S = Inr ob"
    if "fst (object d S ob) = Inr ()"
  proof -
    from that have "?n \<noteq> 0"
      by (auto simp: object_def Let_def split: if_splits)
    then obtain x xs where "filter (\<lambda>s. s_id s = S) (subjects d) = x # xs"
      by (cases "filter (\<lambda>s. s_id s = S) (subjects d)") auto
    then show ?thesis
      by (simp add: object_def Let_def getSubjectObjection_def filter_map_upd_id)
  qed
  show ?thesis
    using r ob by (simp add: restrict_def object_def Let_def)
qed

theorem restrict_object_outcomes_witness:
  "length (filter (\<lambda>s. s_id s = ''s2'') (subjects db_alice)) = 0 \<and>
   fst (restrict db_alice ''s2'' False True False) = Inl (NotFound ''Subject not found'') \<and>
   fst (object db_alice ''s2'' (Some True)) = Inl (NotFound ''Subject not found'') \<and>
   length (filter (\<lambda>s. s_id s = ''s1'') (subjects (db_alice\<lparr>subjects := subjects db_alice @ subjects db_alice\<rparr>))) > 1 \<and>
   fst (restrict (db_alice\<lparr>subjects := subjects db_alice @ subjects db_alice\<rparr>) ''s1'' False True False) =
     Inl (Forbidden ''Duplicated subject in the database'') \<and>
   fst (object (db_alice\<lparr>subjects := subjects db_alice @ subjects db_alice\<rparr>) ''s1'' (Some True)) =
     Inl (Forbidden ''Duplicated subject in the database'') \<and>
   fst (restrict db_alice ''s1'' False True False) = Inr () \<and>
   getSubjectRestrictions (snd (restrict db_alice ''s1'' False True False)) ''s1'' = Inr (False, True, False) \<and>
   fst (object db_alice ''s1'' (Some True)) = Inr () \<and>
   getSubjectObjection (snd (object db_alice ''s1'' (Some True))) ''s1'' = Inr (Some True)"
proof -
  let ?dup = "db_alice\<lparr>subjects := subjects db_alice @ subjects db_alice\<rparr>"
  have h0: "length (filter (\<lambda>s. s_id s = ''s2'') (subjects db_alice)) = 0"
    by (simp add: db_alice_def)
  have h2: "length (filter (\<lambda>s. s_id s = ''s1'') (subjects ?dup)) > 1"
    by (simp add: db_alice_def)
  have h1: "fst (restrict db_alice ''s1'' False True False) = Inr ()"
    by (simp add: restrict_def db_alice_def)
  have h1': "fst (object db_alice ''s1'' (Some True)) = Inr ()"
    by (simp add: object_def db_alice_def)
  show ?thesis
    using h0 h1 h1' h2
      restrict_object_outcomes [of "''s2''" db_alice False True False "Some True"]
      restrict_object_outcomes [of "''s1''" ?dup False True False "Some True"]
      restrict_object_outcomes [of "''s1''" db_alice False True False "Some True"]
    by simp
qed

subsection \<open>Erasure\<close>

lemma erase_unfold:
  "eraseDataAndRevokeConsent env d S =
     (case recordErasureByProcessor env S of
        Inl e \<Rightarrow> (Inl e, d,
                  [Begin, LogInfo ''Emitting erasure event to blockchain'', RecordErasure S, Rollback])
      | Inr u \<Rightarrow> (Inr (),
                  d\<lparr>subject_keys := filter (\<lambda>k. k_subject_id k \<noteq> S) (subject_keys d),
                    subject_processors := filter (\<lambda>p. p_subject_id p \<noteq> S) (subject_processors d)\<rparr>,
                  [Begin, LogInfo ''Emitting erasure event to blockchain'', RecordErasure S, Commit]))"
  by (simp add: eraseDataAndRevokeConsent_def transaction_def Let_def split: sum.splits)

text \<open>
  Claim C5. For every subject id \<open>S\<close>, and so for every initialized one, after
  \<open>eraseDataAndRevokeConsent(S)\<close> succeeds the key rows and the processor association
  rows of \<open>S\<close> are deleted and those of other subjects kept, the subject table is as
  before (the row of \<open>S\<close> and its flags remain), and \<open>getSubjectData(S)\<close> fails with
  \<open>NotFound\<close>.
\<close>

theorem erase_effects:
  "result_of (eraseDataAndRevokeConsent env d S) = Inr () \<Longrightarrow>
     subject_keys (db_of (eraseDataAndRevokeConsent env d S)) =
       filter (\<lambda>k. k_subject_id k \<noteq> S) (subject_keys d) \<and>
     S \<notin> k_subject_id ` set (subject_keys (db_of (eraseDataAndRevokeConsent env d S))) \<and>
     subject_processors (db_of (eraseDataAndRevokeConsent env d S)) =
       filter (\<lambda>p. p_subject_id p \<noteq> S) (subject_processors d) \<and>
     S \<notin> p_subject_id ` set (subject_processors (db_of (eraseDataAndRevokeConsent env d S))) \<and>
     subjects (db_of (eraseDataAndRevokeConsent env d S)) = subjects d \<and>
     getSubjectRestrictions (db_of (eraseDataAndRevokeConsent env d S)) S =
       getSubjectRestrictions d S \<and>
     getSubjectData env (db_of (eraseDataAndRevokeConsent env d S)) S =
       Inl (NotFound ''Subject not found'')"
  by (auto simp: erase_unfold getSubjectData_filter getSubjectRestrictions_def
        split: sum.splits list.splits)

theorem erase_effects_witness:
  "result_of (eraseDataAndRevokeConsent demo_env db_alice ''s1'') = Inr () \<and>
   getSubjectData demo_env db_alice ''s1'' = Inr ''Alice'' \<and>
   subject_keys (db_of (eraseDataAndRevokeConsent demo_env db_alice ''s1'')) = [] \<and>
   subject_processors (db_of (eraseDataAndRevokeConsent demo_env db_alice ''s1'')) = [] \<and>
   subjects (db_of (eraseDataAndRevokeConsent demo_env db_alice ''s1'')) = subjects db_alice \<and>
   getSubjectRestrictions (db_of (eraseDataAndRevokeConsent demo_env db_alice ''s1'')) ''s1'' =
     Inr (True, True, True) \<and>
   getSubjectData demo_env (db_of (eraseDataAndRevokeConsent demo_env db_alice ''s1'')) ''s1'' =
     Inl (NotFound ''Subject not found'')"
proof -
  have h: "result_of (eraseDataAndRevokeConsent demo_env db_alice ''s1'') = Inr ()"
    by (simp add: erase_unfold demo_env_def)
  have g: "getSubjectData demo_env db_alice ''s1'' = Inr ''Alice''"
    by (simp add: getSubjectData_def demo_env_def db_alice_def)
  have r: "getSubjectRestrictions db_alice ''s1'' = Inr (True, True, True)"
    by (simp add: getSubjectRestrictions_def db_alice_def)
  have k: "filter (\<lambda>k. k_subject_id k \<noteq> ''s1'') (subject_keys db_alice) = []"
    by (simp add: db_alice_def)
  have p: "filter (\<lambda>p. p_subject_id p \<noteq> ''s1'') (subject_processors db_alice) = []"
    by (simp add: db_alice_def)
  show ?thesis
    using h g r k p erase_effects [OF h] by simp
qed

text \<open>
  Claim C1, as amended. For every subject id, the ledger notification
  (\<open>recordErasureByProcessor\<close>) is attempted exactly once per successful run of
  \<open>eraseDataAndRevokeConsent\<close>, inside the erasure transaction and before it commits;
  if the notification is attempted and fails, the run fails with its error and the
  transaction does not commit, with that one notification call made.
\<close>

theorem erase_notifies_before_commit:
  "(result_of (eraseDataAndRevokeConsent env d S) = Inr () \<longrightarrow>
      count_list (events_of (eraseDataAndRevokeConsent env d S)) (RecordErasure S) = 1 \<and>
      events_of (eraseDataAndRevokeConsent env d S) =
        [Begin, LogInfo ''Emitting erasure event to blockchain'', RecordErasure S, Commit]) \<and>
   (RecordErasure S \<in> set (events_of (eraseDataAndRevokeConsent env d S)) \<and>
    recordErasureByProcessor env S = Inl e \<longrightarrow>
      result_of (eraseDataAndRevokeConsent env d S) = Inl e \<and>
      Commit \<notin> set (events_of (eraseDataAndRevokeConsent env d S)) \<and>
      count_list (events_of (eraseDataAndRevokeConsent env d S)) (RecordErasure S) = 1)"
  by (cases "recordErasureByProcessor env S") (simp_all add: erase_unfold)

theorem erase_notifies_before_commit_witness:
  "result_of (eraseDataAndRevokeConsent demo_env db_alice ''s1'') = Inr () \<and>
   events_of (eraseDataAndRevokeConsent demo_env db_alice ''s1'') =
     [Begin, LogInfo ''Emitting erasure event to blockchain'', RecordErasure ''s1'', Commit] \<and>
   RecordErasure ''s1'' \<in> set (events_of (eraseDataAndRevokeConsent failing_ledger_env db_alice ''s1'')) \<and>
   recordErasureByProcessor failing_ledger_env ''s1'' = Inl (Thrown ''ledger unavailable'') \<and>
   result_of (eraseDataAndRevokeConsent failing_ledger_env db_alice ''s1'') =
     Inl (Thrown ''ledger unavailable'') \<and>
   Commit \<notin> set (events_of (eraseDataAndRevokeConsent failing_ledger_env db_alice ''s1''))"
proof -
  have a: "result_of (eraseDataAndRevokeConsent demo_env db_alice ''s1'') = Inr ()"
    by (simp add: erase_unfold demo_env_def)
  have b: "RecordErasure ''s1'' \<in>
      set (events_of (eraseDataAndRevokeConsent failing_ledger_env db_alice ''s1''))"
    by (simp add: erase_unfold failing_ledger_env_def demo_env_def)
  have c: "recordErasureByProcessor failing_ledger_env ''s1'' = Inl (Thrown ''ledger unavailable'')"
    by (simp add: failing_ledger_env_def)
  note T1 = erase_notifies_before_commit
    [of demo_env db_alice "''s1''", THEN conjunct1, rule_format, OF a, THEN conjunct2]
  note T2 = erase_notifies_before_commit
    [of failing_ledger_env db_alice "''s1''" "Thrown ''ledger unavailable''", THEN conjunct2,
     rule_format, OF conjI [OF b c]]
  from a T1 b c T2 [THEN conjunct1] T2 [THEN conjunct2, THEN conjunct1] show ?thesis
    by (intro conjI)
qed

text \<open>
  Claim C1 as stated fails: with a ledger that rejects the call, the transaction of the
  erasure of \<open>s1\<close> rolls back and the notification has been attempted once; with a
  ledger that accepts it, the notification precedes the commit.
\<close>

theorem notification_without_commit:
  "result_of (eraseDataAndRevokeConsent failing_ledger_env db_alice ''s1'') =
     Inl (Thrown ''ledger unavailable'') \<and>
   events_of (eraseDataAndRevokeConsent failing_ledger_env db_alice ''s1'') =
     [Begin, LogInfo ''Emitting erasure event to blockchain'', RecordErasure ''s1'', Rollback] \<and>
   Commit \<notin> set (events_of (eraseDataAndRevokeConsent failing_ledger_env db_alice ''s1'')) \<and>
   count_list (events_of (eraseDataAndRevokeConsent failing_ledger_env db_alice ''s1''))
     (RecordErasure ''s1'') = 1 \<and>
   events_of (eraseDataAndRevokeConsent demo_env db_alice ''s1'') =
     [Begin, LogInfo ''Emitting erasure event to blockchain'', RecordErasure ''s1'', Commit]"
  by (simp add: erase_unfold failing_ledger_env_def demo_env_def)

text \<open>
  Claim C2, as amended. For every subject id, if the ledger notifier call fails,
  \<open>eraseDataAndRevokeConsent\<close> fails with the notifier's error and the transaction is
  rolled back: the tables, and with them the key row and the processor association rows,
  are as before the call.
\<close>

theorem ledger_failure_rolls_back:
  "recordErasureByProcessor env S = Inl e \<Longrightarrow>
     result_of (eraseDataAndRevokeConsent env d S) = Inl e \<and>
     db_of (eraseDataAndRevokeConsent env d S) = d \<and>
     events_of (eraseDataAndRevokeConsent env d S) =
       [Begin, LogInfo ''Emitting erasure event to blockchain'', RecordErasure S, Rollback]"
  by (simp add: erase_unfold)

theorem ledger_failure_rolls_back_witness:
  "recordErasureByProcessor failing_ledger_env ''s1'' = Inl (Thrown ''ledger unavailable'') \<and>
   result_of (eraseDataAndRevokeConsent failing_ledger_env db_alice ''s1'') =
     Inl (Thrown ''ledger unavailable'') \<and>
   db_of (eraseDataAndRevokeConsent failing_ledger_env db_alice ''s1'') = db_alice"
proof -
  have h: "recordErasureByProcessor failing_ledger_env ''s1'' = Inl (Thrown ''ledger unavailable'')"
    by (simp add: failing_ledger_env_def)
  show ?thesis
    using h ledger_failure_rolls_back [OF h, of db_alice] by simp
qed

text \<open>
  Claim C2 as stated fails: with a ledger that rejects the call, erasing \<open>s1\<close> throws
  the ledger's error, and the key row and the association row of \<open>s1\<close> are still
  there.
\<close>

theorem ledger_failure_fails_erasure:
  "result_of (eraseDataAndRevokeConsent failing_ledger_env db_alice ''s1'') =
     Inl (Thrown ''ledger unavailable'') \<and>
   subject_keys (db_of (eraseDataAndRevokeConsent failing_ledger_env db_alice ''s1'')) =
     [\<lparr>k_subject_id = ''s1'', key = Some ''k1''\<rparr>] \<and>
   subject_processors (db_of (eraseDataAndRevokeConsent failing_ledger_env db_alice ''s1'')) =
     [\<lparr>p_subject_id = ''s1'', processor_id = 7\<rparr>]"
  by (simp add: erase_unfold failing_ledger_env_def db_alice_def)

subsection \<open>Creating and updating a subject\<close>

lemma initializeUser_create:
  assumes "filter (\<lambda>s. s_id s = S) (subjects d) = []"
    and "encryptForStorage env (JSON_stringify env P) (Some k) = Inr c"
  shows "initializeUser env k now d S P =
           (Inr (),
            d\<lparr>subjects := subjects d @ [new_subject S c now],
              subject_keys := subject_keys d @ [\<lparr>k_subject_id = S, key = Some k\<rparr>]\<rparr>,
            [Begin, GenerateKey, Commit])"
  using assms
  by (simp add: initializeUser_def initializeUserInTransaction_def createNewSubject_def
        saveSubjectEncryptionKey_def transaction_def new_subject_def)

lemma initializeUser_update_key:
  assumes "filter (\<lambda>s. s_id s = S) (subjects d) = s # ss"
    and "filter (\<lambda>k. k_subject_id k = S) (subject_keys d) = kr # krs"
    and "encryptForStorage env (JSON_stringify env P) (key kr) = Inr c"
  shows "initializeUser env k now d S P =
           (Inr (), d\<lparr>subjects := map (rewrite_subject S c now) (subjects d)\<rparr>,
            [Begin, Commit])"
  using assms
  by (simp add: initializeUser_def initializeUserInTransaction_def updateExistingSubject_def
        transaction_def rewrite_subject_def [abs_def])

lemma initializeUser_update_nokey:
  assumes "filter (\<lambda>s. s_id s = S) (subjects d) = s # ss"
    and "filter (\<lambda>k. k_subject_id k = S) (subject_keys d) = []"
    and "encryptForStorage env (JSON_stringify env P) (Some k) = Inr c"
  shows "initializeUser env k now d S P =
           (Inr (),
            d\<lparr>subject_keys := subject_keys d @ [\<lparr>k_subject_id = S, key = Some k\<rparr>],
              subjects := map (rewrite_subject S c now) (subjects d)\<rparr>,
            [Begin, GenerateKey, Commit])"
  using assms
  by (simp add: initializeUser_def initializeUserInTransaction_def updateExistingSubject_def
        saveSubjectEncryptionKey_def transaction_def rewrite_subject_def [abs_def])

lemma filter_rewrite_subject:
  "filter (\<lambda>s. s_id s = S) (map (rewrite_subject S c now) ss) =
   map (\<lambda>s. s\<lparr>personal_data := Some c, updated_at := now\<rparr>) (filter (\<lambda>s. s_id s = S) ss)"
  by (induction ss) (auto simp: rewrite_subject_def)

lemma s_id_rewrite_subject: "map s_id (map (rewrite_subject S c now) ss) = map s_id ss"
  by (induction ss) (auto simp: rewrite_subject_def)

lemma set_s_id_rewrite_subject:
  "s_id ` set (map (rewrite_subject S c now) ss) = s_id ` set ss"
  using s_id_rewrite_subject [of S c now ss] by (metis list.set_map)

lemma filter_k_subject_id_empty:
  "S \<notin> k_subject_id ` set ks \<Longrightarrow> filter (\<lambda>k. k_subject_id k = S) ks = []"
  by (induction ks) auto

lemma filter_distinct_single:
  "distinct (map k_subject_id ks) \<Longrightarrow> filter (\<lambda>k. k_subject_id k = S) ks = kr # krs \<Longrightarrow> krs = []"
proof (induction ks)
  case Nil
  then show ?case by simp
next
  case (Cons a ks)
  show ?case
  proof (cases "k_subject_id a = S")
    case True
    with Cons.prems have "S \<notin> k_subject_id ` set ks" by auto
    then have "filter (\<lambda>k. k_subject_id k = S) ks = []" by (rule filter_k_subject_id_empty)
    with True Cons.prems show ?thesis by simp
  next
    case False
    with Cons show ?thesis by simp
  qed
qed

lemma filter_in_set: "filter Q xs = y # ys \<Longrightarrow> y \<in> set xs \<and> Q y"
  by (metis filter_eq_ConsD in_set_conv_decomp)

lemma read_back:
  assumes "filter (\<lambda>s. s_id s = S) (subjects d) = s # ss"
    and "personal_data s = Some c"
    and "filter (\<lambda>k. k_subject_id k = S) (subject_keys d) = kr # krs"
    and "key kr = Some kk"
    and "decryptFromStorage env (Some c) (Some kk) = Inr (JSON_stringify env P)"
  shows "getSubjectData env d S = JSON_parse env (JSON_stringify env P)"
  using assms by (simp add: getSubjectData_filter)

lemma after_create:
  assumes ok: "key_store_ok d" and cr: "cipher_roundtrip env (JSON_stringify env P)"
    and ns: "filter (\<lambda>s. s_id s = S) (subjects d) = []"
  shows "\<exists>c. initializeUser env k now d S P =
           (Inr (),
            d\<lparr>subjects := subjects d @ [new_subject S c now],
              subject_keys := subject_keys d @ [\<lparr>k_subject_id = S, key = Some k\<rparr>]\<rparr>,
            [Begin, GenerateKey, Commit]) \<and>
          initialized env (db_of (initializeUser env k now d S P)) S P"
proof -
  from cr obtain c where enc: "encryptForStorage env (JSON_stringify env P) (Some k) = Inr c"
    and dec: "decryptFromStorage env (Some c) (Some k) = Inr (JSON_stringify env P)"
    unfolding cipher_roundtrip_def by (elim allE [of _ k] exE conjE)
  let ?d' = "d\<lparr>subjects := subjects d @ [new_subject S c now],
              subject_keys := subject_keys d @ [\<lparr>k_subject_id = S, key = Some k\<rparr>]\<rparr>"
  have out: "initializeUser env k now d S P = (Inr (), ?d', [Begin, GenerateKey, Commit])"
    by (rule initializeUser_create [OF ns enc])
  from ns have nos: "S \<notin> s_id ` set (subjects d)"
    by (auto simp: filter_empty_conv)
  with ok have nok: "S \<notin> k_subject_id ` set (subject_keys d)"
    unfolding key_store_ok_def by blast
  then have fk: "filter (\<lambda>k. k_subject_id k = S) (subject_keys d) = []"
    by (rule filter_k_subject_id_empty)
  have ok': "key_store_ok ?d'"
    using ok nok unfolding key_store_ok_def by (auto simp: new_subject_def)
  have fs': "filter (\<lambda>s. s_id s = S) (subjects ?d') = [new_subject S c now]"
    using ns by (simp add: new_subject_def)
  have fk': "filter (\<lambda>k. k_subject_id k = S) (subject_keys ?d') = [\<lparr>k_subject_id = S, key = Some k\<rparr>]"
    using fk by simp
  have "getSubjectData env ?d' S = JSON_parse env (JSON_stringify env P)"
    by (rule read_back [OF fs' _ fk' _ dec]) (simp_all add: new_subject_def)
  with ok' fs' fk' have "initialized env ?d' S P"
    unfolding initialized_def by simp
  with out show ?thesis by auto
qed

lemma after_update_nokey:
  assumes ok: "key_store_ok d" and cr: "cipher_roundtrip env (JSON_stringify env P)"
    and fs: "filter (\<lambda>s. s_id s = S) (subjects d) = s # ss"
    and fk: "filter (\<lambda>k. k_subject_id k = S) (subject_keys d) = []"
  shows "\<exists>c. initializeUser env k now d S P =
           (Inr (),
            d\<lparr>subject_keys := subject_keys d @ [\<lparr>k_subject_id = S, key = Some k\<rparr>],
              subjects := map (rewrite_subject S c now) (subjects d)\<rparr>,
            [Begin, GenerateKey, Commit]) \<and>
          initialized env (db_of (initializeUser env k now d S P)) S P"
proof -
  from cr obtain c where enc: "encryptForStorage env (JSON_stringify env P) (Some k) = Inr c"
    and dec: "decryptFromStorage env (Some c) (Some k) = Inr (JSON_stringify env P)"
    unfolding cipher_roundtrip_def by (elim allE [of _ k] exE conjE)
  let ?d' = "d\<lparr>subject_keys := subject_keys d @ [\<lparr>k_subject_id = S, key = Some k\<rparr>],
              subjects := map (rewrite_subject S c now) (subjects d)\<rparr>"
  have out: "initializeUser env k now d S P = (Inr (), ?d', [Begin, GenerateKey, Commit])"
    by (rule initializeUser_update_nokey [OF fs fk enc])
  from fk have nok: "S \<notin> k_subject_id ` set (subject_keys d)"
    by (auto simp: filter_empty_conv)
  from fs have ins: "S \<in> s_id ` set (subjects d)"
    using filter_in_set [OF fs] by auto
  have "s_id ` set (subjects ?d') = s_id ` set (subjects d)"
    using set_s_id_rewrite_subject [of S c now "subjects d"] by simp
  then have ok': "key_store_ok ?d'"
    using ok nok ins unfolding key_store_ok_def by auto
  have fs': "filter (\<lambda>s. s_id s = S) (subjects ?d') =
      s\<lparr>personal_data := Some c, updated_at := now\<rparr> #
      map (\<lambda>s. s\<lparr>personal_data := Some c, updated_at := now\<rparr>) ss"
    using fs by (simp add: filter_rewrite_subject)
  have fk': "filter (\<lambda>k. k_subject_id k = S) (subject_keys ?d') = [\<lparr>k_subject_id = S, key = Some k\<rparr>]"
    using fk by simp
  have "getSubjectData env ?d' S = JSON_parse env (JSON_stringify env P)"
    by (rule read_back [OF fs' _ fk' _ dec]) simp_all
  with ok' fs' fk' have "initialized env ?d' S P"
    unfolding initialized_def by simp
  with out show ?thesis by auto
qed

lemma after_update_key:
  assumes ok: "key_store_ok d" and cr: "cipher_roundtrip env (JSON_stringify env P)"
    and fs: "filter (\<lambda>s. s_id s = S) (subjects d) = s # ss"
    and fk: "filter (\<lambda>k. k_subject_id k = S) (subject_keys d) = kr # krs"
  shows "\<exists>c. initializeUser env k now d S P =
           (Inr (), d\<lparr>subjects := map (rewrite_subject S c now) (subjects d)\<rparr>,
            [Begin, Commit]) \<and>
          encryptForStorage env (JSON_stringify env P) (key kr) = Inr c \<and>
          initialized env (db_of (initializeUser env k now d S P)) S P"
proof -
  from ok fk have krs: "krs = []"
    unfolding key_store_ok_def using filter_distinct_single by blast
  from ok filter_in_set [OF fk] obtain kk where kk: "key kr = Some kk"
    unfolding key_store_ok_def by auto
  from cr obtain c where enc: "encryptForStorage env (JSON_stringify env P) (Some kk) = Inr c"
    and dec: "decryptFromStorage env (Some c) (Some kk) = Inr (JSON_stringify env P)"
    unfolding cipher_roundtrip_def by (elim allE [of _ kk] exE conjE)
  let ?d' = "d\<lparr>subjects := map (rewrite_subject S c now) (subjects d)\<rparr>"
  have out: "initializeUser env k now d S P = (Inr (), ?d', [Begin, Commit])"
    by (rule initializeUser_update_key [OF fs fk]) (simp add: kk enc)
  have "s_id ` set (subjects ?d') = s_id ` set (subjects d)"
    using set_s_id_rewrite_subject [of S c now "subjects d"] by simp
  then have ok': "key_store_ok ?d'"
    using ok unfolding key_store_ok_def by auto
  have fs': "filter (\<lambda>s. s_id s = S) (subjects ?d') =
      s\<lparr>personal_data := Some c, updated_at := now\<rparr> #
      map (\<lambda>s. s\<lparr>personal_data := Some c, updated_at := now\<rparr>) ss"
    using fs by (simp add: filter_rewrite_subject)
  have fk': "filter (\<lambda>k. k_subject_id k = S) (subject_keys ?d') = [kr]"
    using fk krs by simp
  have "getSubjectData env ?d' S = JSON_parse env (JSON_stringify env P)"
    by (rule read_back [OF fs' _ fk' kk dec]) simp_all
  with ok' fs' fk' have "initialized env ?d' S P"
    unfolding initialized_def by simp
  with out enc kk show ?thesis by auto
qed

lemma initializeUser_cases:
  "initializeUser env k now d S P =
     (case filter (\<lambda>s. s_id s = S) (subjects d) of
        [] \<Rightarrow>
          (case encryptForStorage env (JSON_stringify env P) (Some k) of
             Inl e \<Rightarrow> (Inl e, d, [Begin, GenerateKey, Rollback])
           | Inr c \<Rightarrow>
               (Inr (),
                d\<lparr>subjects := subjects d @ [new_subject S c now],
                  subject_keys := subject_keys d @ [\<lparr>k_subject_id = S, key = Some k\<rparr>]\<rparr>,
                [Begin, GenerateKey, Commit]))
      | s # ss \<Rightarrow>
          (case filter (\<lambda>k. k_subject_id k = S) (subject_keys d) of
             [] \<Rightarrow>
               (case encryptForStorage env (JSON_stringify env P) (Some k) of
                  Inl e \<Rightarrow> (Inl e, d, [Begin, GenerateKey, Rollback])
                | Inr c \<Rightarrow>
                    (Inr (),
                     d\<lparr>subject_keys := subject_keys d @ [\<lparr>k_subject_id = S, key = Some k\<rparr>],
                       subjects := map (rewrite_subject S c now) (subjects d)\<rparr>,
                     [Begin, GenerateKey, Commit]))
           | kr # krs \<Rightarrow>
               (case encryptForStorage env (JSON_stringify env P) (key kr) of
                  Inl e \<Rightarrow> (Inl e, d, [Begin, Rollback])
                | Inr c \<Rightarrow>
                    (Inr (), d\<lparr>subjects := map (rewrite_subject S c now) (subjects d)\<rparr>,
                     [Begin, Commit]))))"
  by (simp add: initializeUser_def initializeUserInTransaction_def createNewSubject_def
        updateExistingSubject_def saveSubjectEncryptionKey_def transaction_def new_subject_def
        rewrite_subject_def [abs_def] split: list.splits sum.splits)

lemma after_initializeUser:
  assumes ok: "key_store_ok d" and cr: "cipher_roundtrip env (JSON_stringify env P)"
  shows "result_of (initializeUser env k now d S P) = Inr () \<and>
         initialized env (db_of (initializeUser env k now d S P)) S P"
proof (cases "filter (\<lambda>s. s_id s = S) (subjects d)")
  case Nil
  from after_create [OF ok cr Nil, of k now] show ?thesis by auto
next
  case (Cons s ss)
  show ?thesis
  proof (cases "filter (\<lambda>k. k_subject_id k = S) (subject_keys d)")
    case Nil
    from after_update_nokey [OF ok cr Cons Nil, of k now] show ?thesis by auto
  next
    case (Cons kr krs)
    from after_update_key [OF ok cr \<open>filter (\<lambda>s. s_id s = S) (subjects d) = s # ss\<close> Cons, of k now]
    show ?thesis by auto
  qed
qed

lemma key_store_ok_empty: "key_store_ok empty_db"
  by (simp add: key_store_ok_def empty_db_def)

lemma cipher_roundtrip_demo: "cipher_roundtrip demo_env plain"
  by (simp add: cipher_roundtrip_def demo_env_def)

lemma cipher_roundtrip_js: "cipher_roundtrip js_env (Some txt)"
  by (simp add: cipher_roundtrip_def js_env_def)

text \<open>
  On the JavaScript values the round trip through \<open>JSON\<close> keeps every value without
  \<open>undefined\<close> and \<open>NaN\<close>.
\<close>

lemma json_safe_roundtrip:
  "json_safe v \<Longrightarrow>
     (\<exists>j. SerializeJSONProperty v = Some j \<and> InternalizeJSON j = v)"
  "json_safe_array vs \<Longrightarrow> InternalizeJSONArray (SerializeJSONArray vs) = vs"
  "json_safe_object ps \<Longrightarrow> InternalizeJSONObject (SerializeJSONObject ps) = ps"
  by (induction v and vs and ps rule: json_safe_json_safe_array_json_safe_object.induct)
     auto

lemma js_env_json_safe:
  "json_safe P \<Longrightarrow> JSON_parse js_env (JSON_stringify js_env P) = Inr P"
  using json_safe_roundtrip(1) [of P] by (auto simp: js_env_def)

text \<open>
  Claim C3, as amended. For every subject id \<open>S\<close> with no subject row and every payload
  \<open>P\<close>, \<open>initializeUser(S, P)\<close> succeeds, generating a key, and
  \<open>getSubjectData(S)\<close> on the resulting tables returns what \<open>JSON.parse\<close> makes of
  \<open>JSON.stringify(P)\<close>, which is \<open>P\<close> whenever the JSON round trip keeps \<open>P\<close>.
  The cipher round-trips the text of \<open>P\<close> and the key table is in the state the
  service keeps.
\<close>

theorem initialize_then_read:
  assumes "key_store_ok d" and "cipher_roundtrip env (JSON_stringify env P)"
    and "S \<notin> s_id ` set (subjects d)"
  shows "result_of (initializeUser env k now d S P) = Inr () \<and>
         GenerateKey \<in> set (events_of (initializeUser env k now d S P)) \<and>
         getSubjectData env (db_of (initializeUser env k now d S P)) S =
           JSON_parse env (JSON_stringify env P) \<and>
         (JSON_parse env (JSON_stringify env P) = Inr P \<longrightarrow>
            getSubjectData env (db_of (initializeUser env k now d S P)) S = Inr P)"
proof -
  from assms(3) have ns: "filter (\<lambda>s. s_id s = S) (subjects d) = []"
    by (rule filter_s_id_empty)
  from after_create [OF assms(1,2) ns, of k now] show ?thesis
    by (auto simp: initialized_def)
qed

theorem initialize_then_read_witness:
  "key_store_ok js_empty_db \<and>
   cipher_roundtrip js_env (JSON_stringify js_env alice_30) \<and>
   ''s1'' \<notin> s_id ` set (subjects js_empty_db) \<and>
   JSON_parse js_env (JSON_stringify js_env alice_30) = Inr alice_30 \<and>
   result_of (initializeUser js_env ''k1'' 100 js_empty_db ''s1'' alice_30) = Inr () \<and>
   getSubjectData js_env (db_of (initializeUser js_env ''k1'' 100 js_empty_db ''s1'' alice_30)) ''s1'' =
     Inr alice_30"
proof -
  have a: "key_store_ok js_empty_db"
    by (simp add: key_store_ok_def js_empty_db_def)
  have b: "cipher_roundtrip js_env (JSON_stringify js_env alice_30)"
    by (simp add: cipher_roundtrip_def js_env_def alice_30_def)
  have e: "''s1'' \<notin> s_id ` set (subjects js_empty_db)"
    by (simp add: js_empty_db_def)
  have j: "JSON_parse js_env (JSON_stringify js_env alice_30) = Inr alice_30"
    by (simp add: js_env_def alice_30_def)
  note T = initialize_then_read [OF a b e, of "''k1''" 100]
  note r = T [THEN conjunct1]
  note g = T [THEN conjunct2, THEN conjunct2, THEN conjunct2, rule_format, OF j]
  from a b e j r g show ?thesis
    by (intro conjI)
qed

text \<open>
  Claim C3 as stated fails: a subject initialized with \<open>{name: 'Alice', age: NaN}\<close> in
  an empty store reads back as \<open>{name: 'Alice', age: null}\<close>, since
  \<open>JSON.stringify\<close> writes \<open>NaN\<close> as \<open>null\<close>.
\<close>

theorem NaN_payload_read_back_changed:
  "''s1'' \<notin> s_id ` set (subjects js_empty_db) \<and>
   result_of (initializeUser js_env ''k1'' 100 js_empty_db ''s1'' alice_NaN) = Inr () \<and>
   getSubjectData js_env
     (db_of (initializeUser js_env ''k1'' 100 js_empty_db ''s1'' alice_NaN)) ''s1'' =
     Inr (JS_object [(''name'', JS_string ''Alice''), (''age'', JS_null)]) \<and>
   JS_object [(''name'', JS_string ''Alice''), (''age'', JS_null)] \<noteq> alice_NaN"
  by (simp add: initializeUser_cases getSubjectData_filter js_empty_db_def js_env_def
        alice_NaN_def new_subject_def)

subsection \<open>The key table kept by the service\<close>

lemma key_store_ok_add_key:
  assumes ok: "key_store_ok d" and ids: "s_id ` set ss = s_id ` set (subjects d) \<union> A"
    and nok: "S \<notin> k_subject_id ` set (subject_keys d)" and ins: "S \<in> s_id ` set ss"
  shows "key_store_ok (d\<lparr>subjects := ss,
           subject_keys := subject_keys d @ [\<lparr>k_subject_id = S, key = Some k\<rparr>]\<rparr>)"
  using assms unfolding key_store_ok_def by auto

lemma key_store_ok_same_ids:
  assumes ok: "key_store_ok d" and ids: "s_id ` set ss = s_id ` set (subjects d)"
  shows "key_store_ok (d\<lparr>subjects := ss\<rparr>)"
  using assms unfolding key_store_ok_def by auto

lemma key_store_ok_initializeUser:
  assumes ok: "key_store_ok d"
  shows "key_store_ok (db_of (initializeUser env k now d S P))"
proof (cases "filter (\<lambda>s. s_id s = S) (subjects d)")
  case Nil
  then have "S \<notin> s_id ` set (subjects d)" by (auto simp: filter_empty_conv)
  with ok have nok: "S \<notin> k_subject_id ` set (subject_keys d)"
    unfolding key_store_ok_def by blast
  show ?thesis
  proof (cases "encryptForStorage env (JSON_stringify env P) (Some k)")
    case (Inl e)
    with Nil ok show ?thesis by (simp add: initializeUser_cases)
  next
    case (Inr c)
    have "key_store_ok (d\<lparr>subjects := subjects d @ [new_subject S c now],
           subject_keys := subject_keys d @ [\<lparr>k_subject_id = S, key = Some k\<rparr>]\<rparr>)"
      by (rule key_store_ok_add_key [OF ok _ nok, where A = "{S}"])
         (simp_all add: new_subject_def)
    with Nil Inr show ?thesis by (simp add: initializeUser_cases)
  qed
next
  case (Cons s ss)
  then have ins: "S \<in> s_id ` set (subjects d)"
    using filter_in_set [OF Cons] by auto
  show ?thesis
  proof (cases "filter (\<lambda>k. k_subject_id k = S) (subject_keys d)")
    case Nil
    then have nok: "S \<notin> k_subject_id ` set (subject_keys d)"
      by (auto simp: filter_empty_conv)
    show ?thesis
    proof (cases "encryptForStorage env (JSON_stringify env P) (Some k)")
      case (Inl e)
      with Cons Nil ok show ?thesis by (simp add: initializeUser_cases)
    next
      case (Inr c)
      have "key_store_ok (d\<lparr>subjects := map (rewrite_subject S c now) (subjects d),
           subject_keys := subject_keys d @ [\<lparr>k_subject_id = S, key = Some k\<rparr>]\<rparr>)"
        by (rule key_store_ok_add_key [OF ok _ nok, where A = "{}"])
           (simp_all only: set_s_id_rewrite_subject ins Un_empty_right)
      then have "key_store_ok (d\<lparr>subject_keys := subject_keys d @ [\<lparr>k_subject_id = S, key = Some k\<rparr>],
           subjects := map (rewrite_subject S c now) (subjects d)\<rparr>)"
        unfolding key_store_ok_def by simp
      with Cons Nil Inr show ?thesis by (simp add: initializeUser_cases)
    qed
  next
    case (Cons kr krs)
    show ?thesis
    proof (cases "encryptForStorage env (JSON_stringify env P) (key kr)")
      case (Inl e)
      with \<open>filter (\<lambda>s. s_id s = S) (subjects d) = s # ss\<close> Cons ok show ?thesis
        by (simp add: initializeUser_cases)
    next
      case (Inr c)
      have "key_store_ok (d\<lparr>subjects := map (rewrite_subject S c now) (subjects d)\<rparr>)"
        by (rule key_store_ok_same_ids [OF ok]) (rule set_s_id_rewrite_subject)
      with \<open>filter (\<lambda>s. s_id s = S) (subjects d) = s # ss\<close> Cons Inr show ?thesis
        by (simp add: initializeUser_cases)
    qed
  qed
qed

lemma key_store_ok_erase:
  assumes ok: "key_store_ok d"
  shows "key_store_ok (db_of (eraseDataAndRevokeConsent env d S))"
proof (cases "recordErasureByProcessor env S")
  case (Inl e)
  with ok show ?thesis by (simp add: erase_unfold)
next
  case (Inr u)
  have "key_store_ok
     (d\<lparr>subject_keys := filter (\<lambda>k. k_subject_id k \<noteq> S) (subject_keys d),
        subject_processors := filter (\<lambda>p. p_subject_id p \<noteq> S) (subject_processors d)\<rparr>)"
    using ok unfolding key_store_ok_def by (auto simp: distinct_map_filter)
  with Inr show ?thesis by (simp add: erase_unfold)
qed

lemma s_id_map_upd:
  "(\<And>s. s_id (f s) = s_id s) \<Longrightarrow>
     s_id ` set (map (\<lambda>s. if s_id s = S then f s else s) ss) = s_id ` set ss"
  by (induction ss) auto

lemma key_store_ok_restrict:
  assumes ok: "key_store_ok d"
  shows "key_store_ok (snd (restrict d S dm ec rs))"
proof -
  have "key_store_ok (d\<lparr>subjects :=
          map (\<lambda>s. if s_id s = S
                    then s\<lparr>direct_marketing := dm, email_communication := ec, research := rs\<rparr>
                    else s) (subjects d)\<rparr>)"
    by (rule key_store_ok_same_ids [OF ok]) (rule s_id_map_upd, simp)
  then show ?thesis by (simp add: restrict_def Let_def)
qed

lemma key_store_ok_object:
  assumes ok: "key_store_ok d"
  shows "key_store_ok (snd (object d S ob))"
proof -
  have "key_store_ok (d\<lparr>subjects :=
          map (\<lambda>s. if s_id s = S then s\<lparr>objection := ob\<rparr> else s) (subjects d)\<rparr>)"
    by (rule key_store_ok_same_ids [OF ok]) (rule s_id_map_upd, simp)
  then show ?thesis by (simp add: object_def Let_def)
qed

subsection \<open>Initializing a subject twice\<close>

lemma length_one_filter:
  "length (filter Q xs) = 1 \<Longrightarrow> \<exists>x. filter Q xs = [x]"
  by (cases "filter Q xs") auto

lemma rewrite_subject_data:
  assumes "r \<in> set (map (rewrite_subject S c now) ss)" and "s_id r = S"
  shows "personal_data r = Some c"
proof -
  from assms(1) obtain s0 where r: "r = rewrite_subject S c now s0"
    by (auto simp del: set_map simp add: set_map image_iff)
  show ?thesis
  proof (cases "s_id s0 = S")
    case True
    then show ?thesis by (simp add: r rewrite_subject_def)
  next
    case False
    with assms(2) show ?thesis by (simp add: r rewrite_subject_def)
  qed
qed

lemma initializeUser_reuses_key:
  assumes ok: "key_store_ok d" and cr: "cipher_roundtrip env (JSON_stringify env P)"
    and one: "length (filter (\<lambda>k. k_subject_id k = S) (subject_keys d)) = 1"
    and some: "filter (\<lambda>s. s_id s = S) (subjects d) \<noteq> []"
  shows "subject_keys (db_of (initializeUser env k now d S P)) = subject_keys d \<and>
         GenerateKey \<notin> set (events_of (initializeUser env k now d S P)) \<and>
         (\<exists>kr c. filter (\<lambda>k. k_subject_id k = S) (subject_keys d) = [kr] \<and>
            encryptForStorage env (JSON_stringify env P) (key kr) = Inr c \<and>
            (\<forall>s \<in> set (subjects (db_of (initializeUser env k now d S P))).
               s_id s = S \<longrightarrow> personal_data s = Some c))"
proof -
  from some obtain s ss where fs: "filter (\<lambda>s. s_id s = S) (subjects d) = s # ss"
    by (cases "filter (\<lambda>s. s_id s = S) (subjects d)") simp_all
  from length_one_filter [OF one] obtain kr
    where fk: "filter (\<lambda>k. k_subject_id k = S) (subject_keys d) = [kr]" ..
  from after_update_key [OF ok cr fs fk, of k now]
  obtain c where out: "initializeUser env k now d S P =
           (Inr (), d\<lparr>subjects := map (rewrite_subject S c now) (subjects d)\<rparr>, [Begin, Commit])"
    and enc: "encryptForStorage env (JSON_stringify env P) (key kr) = Inr c"
    by (elim exE conjE)
  have all: "\<forall>s \<in> set (map (rewrite_subject S c now) (subjects d)).
               s_id s = S \<longrightarrow> personal_data s = Some c"
  proof (intro ballI impI)
    fix r
    assume "r \<in> set (map (rewrite_subject S c now) (subjects d))" and "s_id r = S"
    then show "personal_data r = Some c"
      by (rule rewrite_subject_data)
  qed
  have "\<exists>kr c. filter (\<lambda>k. k_subject_id k = S) (subject_keys d) = [kr] \<and>
            encryptForStorage env (JSON_stringify env P) (key kr) = Inr c \<and>
            (\<forall>s \<in> set (subjects (db_of (initializeUser env k now d S P))).
               s_id s = S \<longrightarrow> personal_data s = Some c)"
    using fk enc all unfolding out by (intro exI [of _ kr] exI [of _ c]) simp
  then show ?thesis
    unfolding out by simp
qed

lemma generates_only_without_key:
  assumes ok: "key_store_ok d"
    and gen: "GenerateKey \<in> set (events_of (initializeUser env k now d S P))"
  shows "filter (\<lambda>k. k_subject_id k = S) (subject_keys d) = []"
proof (cases "filter (\<lambda>s. s_id s = S) (subjects d)")
  case Nil
  then have "S \<notin> s_id ` set (subjects d)" by (auto simp: filter_empty_conv)
  with ok have "S \<notin> k_subject_id ` set (subject_keys d)"
    unfolding key_store_ok_def by blast
  then show ?thesis by (rule filter_k_subject_id_empty)
next
  case (Cons s ss)
  show ?thesis
  proof (cases "filter (\<lambda>k. k_subject_id k = S) (subject_keys d)")
    case Nil
    then show ?thesis .
  next
    case (Cons kr krs)
    have "events_of (initializeUser env k now d S P) = [Begin, Rollback] \<or>
          events_of (initializeUser env k now d S P) = [Begin, Commit]"
      unfolding initializeUser_cases [of env k now d S P]
      by (cases "encryptForStorage env (JSON_stringify env P) (key kr)")
         (simp_all add: Cons \<open>filter (\<lambda>s. s_id s = S) (subjects d) = s # ss\<close>)
    with gen show ?thesis by auto
  qed
qed

text \<open>
  Claim C4, as amended. For every subject id \<open>S\<close> and payloads \<open>P1\<close>, \<open>P2\<close>,
  \<open>initializeUser(S, P1)\<close> then \<open>initializeUser(S, P2)\<close> succeeds; the second call
  generates no key and leaves the key table as the first call left it, with exactly one key
  row for \<open>S\<close>; it encrypts \<open>P2\<close> under the key of that row and writes the result to
  the subject; the first call generates a key only when \<open>S\<close> had no key row; and
  \<open>getSubjectData(S)\<close> after the second call returns what \<open>JSON.parse\<close> makes of
  \<open>JSON.stringify(P2)\<close>, which is \<open>P2\<close> whenever the JSON round trip keeps
  \<open>P2\<close>. The cipher round-trips the texts of \<open>P1\<close> and \<open>P2\<close> and the key table
  starts in the state the service keeps.
\<close>

theorem reinitialize_keeps_key:
  assumes "key_store_ok d" and "cipher_roundtrip env (JSON_stringify env P1)"
    and "cipher_roundtrip env (JSON_stringify env P2)"
  shows
    "result_of (initializeTwice env k1 t1 k2 t2 d S P1 P2) = Inr () \<and>
     subject_keys (db_of (initializeTwice env k1 t1 k2 t2 d S P1 P2)) =
       subject_keys (db_of (initializeUser env k1 t1 d S P1)) \<and>
     GenerateKey \<notin> set (events_of (initializeTwice env k1 t1 k2 t2 d S P1 P2)) \<and>
     (GenerateKey \<in> set (events_of (initializeUser env k1 t1 d S P1)) \<longrightarrow>
        filter (\<lambda>k. k_subject_id k = S) (subject_keys d) = []) \<and>
     length (filter (\<lambda>k. k_subject_id k = S)
               (subject_keys (db_of (initializeUser env k1 t1 d S P1)))) = 1 \<and>
     length (filter (\<lambda>k. k_subject_id k = S)
               (subject_keys (db_of (initializeTwice env k1 t1 k2 t2 d S P1 P2)))) = 1 \<and>
     (\<exists>kr c. filter (\<lambda>k. k_subject_id k = S)
                (subject_keys (db_of (initializeUser env k1 t1 d S P1))) = [kr] \<and>
        encryptForStorage env (JSON_stringify env P2) (key kr) = Inr c \<and>
        (\<forall>s \<in> set (subjects (db_of (initializeTwice env k1 t1 k2 t2 d S P1 P2))).
           s_id s = S \<longrightarrow> personal_data s = Some c)) \<and>
     getSubjectData env (db_of (initializeTwice env k1 t1 k2 t2 d S P1 P2)) S =
       JSON_parse env (JSON_stringify env P2) \<and>
     (JSON_parse env (JSON_stringify env P2) = Inr P2 \<longrightarrow>
        getSubjectData env (db_of (initializeTwice env k1 t1 k2 t2 d S P1 P2)) S = Inr P2)"
proof -
  let ?d1 = "db_of (initializeUser env k1 t1 d S P1)"
  from after_initializeUser [OF assms(1,2), of k1 t1 S]
  have i1: "initialized env ?d1 S P1" by simp
  then have ok1: "key_store_ok ?d1"
    and one1: "length (filter (\<lambda>k. k_subject_id k = S) (subject_keys ?d1)) = 1"
    and some1: "filter (\<lambda>s. s_id s = S) (subjects ?d1) \<noteq> []"
    unfolding initialized_def by simp_all
  from after_initializeUser [OF ok1 assms(3), of k2 t2 S]
  have r2: "result_of (initializeUser env k2 t2 ?d1 S P2) = Inr ()"
    and i2: "initialized env (db_of (initializeUser env k2 t2 ?d1 S P2)) S P2"
    by simp_all
  note reuse = initializeUser_reuses_key [OF ok1 assms(3) one1 some1, of k2 t2]
  note gen = generates_only_without_key [OF assms(1), of env k1 t1 S P1]
  from i2 have one2: "length (filter (\<lambda>k. k_subject_id k = S)
       (subject_keys (db_of (initializeUser env k2 t2 ?d1 S P2)))) = 1"
    and get2: "getSubjectData env (db_of (initializeUser env k2 t2 ?d1 S P2)) S =
       JSON_parse env (JSON_stringify env P2)"
    unfolding initialized_def by simp_all
  from reuse have keys2: "subject_keys (db_of (initializeUser env k2 t2 ?d1 S P2)) = subject_keys ?d1"
    and nogen2: "GenerateKey \<notin> set (events_of (initializeUser env k2 t2 ?d1 S P2))"
    and enc2: "\<exists>kr c. filter (\<lambda>k. k_subject_id k = S) (subject_keys ?d1) = [kr] \<and>
            encryptForStorage env (JSON_stringify env P2) (key kr) = Inr c \<and>
            (\<forall>s \<in> set (subjects (db_of (initializeUser env k2 t2 ?d1 S P2))).
               s_id s = S \<longrightarrow> personal_data s = Some c)"
    by (rule conjunct1, rule conjunct2 [THEN conjunct1], rule conjunct2 [THEN conjunct2])
  have gen1: "GenerateKey \<in> set (events_of (initializeUser env k1 t1 d S P1)) \<longrightarrow>
        filter (\<lambda>k. k_subject_id k = S) (subject_keys d) = []"
    using gen by (rule impI)
  have get2': "JSON_parse env (JSON_stringify env P2) = Inr P2 \<longrightarrow>
        getSubjectData env (db_of (initializeUser env k2 t2 ?d1 S P2)) S = Inr P2"
    using get2 by simp
  show ?thesis
    unfolding initializeTwice_def
    by (intro conjI r2 keys2 nogen2 gen1 one1 one2 enc2 get2 get2')
qed

theorem reinitialize_keeps_key_witness:
  "key_store_ok js_empty_db \<and>
   cipher_roundtrip js_env (JSON_stringify js_env alice_NaN) \<and>
   cipher_roundtrip js_env (JSON_stringify js_env alice_30) \<and>
   JSON_parse js_env (JSON_stringify js_env alice_30) = Inr alice_30 \<and>
   GenerateKey \<in> set (events_of (initializeUser js_env ''k1'' 100 js_empty_db ''s1'' alice_NaN)) \<and>
   filter (\<lambda>k. k_subject_id k = ''s1'') (subject_keys js_empty_db) = [] \<and>
   result_of (initializeTwice js_env ''k1'' 100 ''k2'' 200 js_empty_db ''s1'' alice_NaN alice_30) =
     Inr () \<and>
   subject_keys
     (db_of (initializeTwice js_env ''k1'' 100 ''k2'' 200 js_empty_db ''s1'' alice_NaN alice_30)) =
     [\<lparr>k_subject_id = ''s1'', key = Some ''k1''\<rparr>] \<and>
   getSubjectData js_env
     (db_of (initializeTwice js_env ''k1'' 100 ''k2'' 200 js_empty_db ''s1'' alice_NaN alice_30))
     ''s1'' = Inr alice_30"
proof -
  have a: "key_store_ok js_empty_db"
    by (simp add: key_store_ok_def js_empty_db_def)
  have b1: "cipher_roundtrip js_env (JSON_stringify js_env alice_NaN)"
    by (simp add: cipher_roundtrip_def js_env_def alice_NaN_def)
  have b2: "cipher_roundtrip js_env (JSON_stringify js_env alice_30)"
    by (simp add: cipher_roundtrip_def js_env_def alice_30_def)
  have j: "JSON_parse js_env (JSON_stringify js_env alice_30) = Inr alice_30"
    by (simp add: js_env_def alice_30_def)
  have k: "subject_keys (db_of (initializeUser js_env ''k1'' 100 js_empty_db ''s1'' alice_NaN)) =
     [\<lparr>k_subject_id = ''s1'', key = Some ''k1''\<rparr>]"
    by (simp add: initializeUser_cases js_empty_db_def js_env_def alice_NaN_def)
  have gk: "GenerateKey \<in>
      set (events_of (initializeUser js_env ''k1'' 100 js_empty_db ''s1'' alice_NaN))"
    by (simp add: initializeUser_cases js_empty_db_def js_env_def alice_NaN_def)
  note T = reinitialize_keeps_key [OF a b1 b2, of "''k1''" 100 "''k2''" 200 "''s1''"]
  note n = T [THEN conjunct2, THEN conjunct2, THEN conjunct2, THEN conjunct1, rule_format, OF gk]
  note r = T [THEN conjunct1]
  note ks = T [THEN conjunct2, THEN conjunct1]
  note g = T [THEN conjunct2, THEN conjunct2, THEN conjunct2, THEN conjunct2, THEN conjunct2,
    THEN conjunct2, THEN conjunct2, THEN conjunct2, rule_format, OF j]
  from a b1 b2 j gk n r ks [unfolded k] g show ?thesis
    by (intro conjI)
qed

text \<open>
  Claim C4 as stated fails: after \<open>{name: 'Alice', age: 30}\<close> and then
  \<open>{name: 'Alice', age: NaN}\<close> for one subject, the read returns
  \<open>{name: 'Alice', age: null}\<close>, which is not the second payload.
\<close>

theorem NaN_payload_second_read_changed:
  "result_of (initializeTwice js_env ''k1'' 100 ''k2'' 200 js_empty_db ''s1'' alice_30 alice_NaN) =
     Inr () \<and>
   getSubjectData js_env
     (db_of (initializeTwice js_env ''k1'' 100 ''k2'' 200 js_empty_db ''s1'' alice_30 alice_NaN))
     ''s1'' = Inr (JS_object [(''name'', JS_string ''Alice''), (''age'', JS_null)]) \<and>
   JS_object [(''name'', JS_string ''Alice''), (''age'', JS_null)] \<noteq> alice_NaN"
  by (simp add: initializeTwice_def initializeUser_cases getSubjectData_filter js_empty_db_def
        js_env_def alice_NaN_def alice_30_def new_subject_def rewrite_subject_def)

subsection \<open>Default consent flags\<close>

lemma consent_flags_rewrite_subject:
  "consent_flags (rewrite_subject S c now s) = consent_flags s"
  by (simp add: consent_flags_def rewrite_subject_def)

lemma consent_flags_object:
  "consent_flags (s\<lparr>objection := ob\<rparr>) = consent_flags s"
  by (simp add: consent_flags_def)

lemma initializeUser_existing_flags:
  assumes "S \<in> s_id ` set (subjects d)"
  shows "map consent_flags (subjects (db_of (initializeUser env k now d S P))) =
         map consent_flags (subjects d)"
proof -
  from assms obtain s ss where fs: "filter (\<lambda>s. s_id s = S) (subjects d) = s # ss"
    by (cases "filter (\<lambda>s. s_id s = S) (subjects d)") (auto simp: filter_empty_conv)
  show ?thesis
  proof (cases "filter (\<lambda>k. k_subject_id k = S) (subject_keys d)")
    case Nil
    show ?thesis
      unfolding initializeUser_cases [of env k now d S P]
      by (cases "encryptForStorage env (JSON_stringify env P) (Some k)")
         (simp_all add: fs Nil consent_flags_rewrite_subject)
  next
    case (Cons kr krs)
    show ?thesis
      unfolding initializeUser_cases [of env k now d S P]
      by (cases "encryptForStorage env (JSON_stringify env P) (key kr)")
         (simp_all add: fs Cons consent_flags_rewrite_subject)
  qed
qed

lemma initializeUser_new_flags:
  assumes ns: "S \<notin> s_id ` set (subjects d)"
    and ok: "result_of (initializeUser env k now d S P) = Inr ()"
  shows "map consent_flags (subjects (db_of (initializeUser env k now d S P))) =
           map consent_flags (subjects d) @ [(S, True, True, True)] \<and>
         getSubjectRestrictions (db_of (initializeUser env k now d S P)) S =
           Inr (True, True, True)"
proof -
  from ns have fs: "filter (\<lambda>s. s_id s = S) (subjects d) = []"
    by (rule filter_s_id_empty)
  show ?thesis
  proof (cases "encryptForStorage env (JSON_stringify env P) (Some k)")
    case (Inl e)
    with ok fs show ?thesis
      by (simp add: initializeUser_cases)
  next
    case (Inr c)
    with fs show ?thesis
      by (simp add: initializeUser_cases getSubjectRestrictions_def consent_flags_def
            new_subject_def)
  qed
qed

text \<open>
  Claim C9. For every subject id with no subject row, a successful \<open>initializeUser\<close>
  appends one subject row with the three consent flags \<open>direct_marketing\<close>,
  \<open>email_communication\<close> and \<open>research\<close> true, which \<open>getSubjectRestrictions\<close>
  returns; on a subject that has a row, \<open>initializeUser\<close> leaves the flags of every row
  as they are, and so do \<open>eraseDataAndRevokeConsent\<close> and \<open>object\<close>: no other
  operation sets default flags (\<open>restrict\<close> writes the values it is given).
\<close>

theorem default_flags_only_at_creation:
  "(S \<notin> s_id ` set (subjects d) \<and> result_of (initializeUser env k now d S P) = Inr () \<longrightarrow>
      map consent_flags (subjects (db_of (initializeUser env k now d S P))) =
        map consent_flags (subjects d) @ [(S, True, True, True)] \<and>
      getSubjectRestrictions (db_of (initializeUser env k now d S P)) S =
        Inr (True, True, True)) \<and>
   (S \<in> s_id ` set (subjects d) \<longrightarrow>
      map consent_flags (subjects (db_of (initializeUser env k now d S P))) =
        map consent_flags (subjects d)) \<and>
   map consent_flags (subjects (db_of (eraseDataAndRevokeConsent env d S))) =
     map consent_flags (subjects d) \<and>
   map consent_flags (subjects (snd (object d S ob))) = map consent_flags (subjects d)"
proof -
  have e: "map consent_flags (subjects (db_of (eraseDataAndRevokeConsent env d S))) =
     map consent_flags (subjects d)"
    by (cases "recordErasureByProcessor env S") (simp_all add: erase_unfold)
  have o: "map consent_flags (subjects (snd (object d S ob))) = map consent_flags (subjects d)"
    by (simp add: object_def Let_def consent_flags_object)
  from e o initializeUser_new_flags [of S d env k now P]
    initializeUser_existing_flags [of S d env k now P]
  show ?thesis by (intro conjI impI) simp_all
qed

theorem default_flags_only_at_creation_witness:
  "''s1'' \<notin> s_id ` set (subjects empty_db) \<and>
   result_of (initializeUser demo_env ''k1'' 100 empty_db ''s1'' ''Alice'') = Inr () \<and>
   getSubjectRestrictions (db_of (initializeUser demo_env ''k1'' 100 empty_db ''s1'' ''Alice'')) ''s1'' =
     Inr (True, True, True) \<and>
   ''s1'' \<in> s_id ` set (subjects (snd (restrict db_alice ''s1'' False True False))) \<and>
   map consent_flags
     (subjects (db_of (initializeUser demo_env ''k2'' 200
                         (snd (restrict db_alice ''s1'' False True False)) ''s1'' ''Bob''))) =
     [(''s1'', False, True, False)]"
proof -
  have a: "''s1'' \<notin> s_id ` set (subjects empty_db)"
    by (simp add: empty_db_def)
  have b: "result_of (initializeUser demo_env ''k1'' 100 empty_db ''s1'' ''Alice'') = Inr ()"
    by (simp add: initializeUser_cases empty_db_def demo_env_def)
  have r: "subjects (snd (restrict db_alice ''s1'' False True False)) =
     [\<lparr>s_id = ''s1'', personal_data = Some ''k1Alice'',
         direct_marketing = False, email_communication = True,
         research = False, objection = None, created_at = 100,
         updated_at = 100\<rparr>]"
    by (simp add: restrict_def db_alice_def)
  have c: "''s1'' \<in> s_id ` set (subjects (snd (restrict db_alice ''s1'' False True False)))"
    by (simp add: r)
  have f: "map consent_flags (subjects (snd (restrict db_alice ''s1'' False True False))) =
      [(''s1'', False, True, False)]"
    by (simp add: r consent_flags_def)
  note T1 = default_flags_only_at_creation
    [of "''s1''" empty_db demo_env "''k1''" 100 "''Alice''" None, THEN conjunct1, rule_format,
     OF conjI [OF a b], THEN conjunct2]
  note T2 = default_flags_only_at_creation
    [of "''s1''" "snd (restrict db_alice ''s1'' False True False)" demo_env "''k2''" 200 "''Bob''" None,
     THEN conjunct2, THEN conjunct1, rule_format, OF c]
  from a b T1 c T2 [unfolded f] show ?thesis
    by (intro conjI)
qed


end
